theory Spec2Isabelle
  imports Complex_Main
begin

section \<open>Talk2Repo: a shallow embedding of \<^verbatim>\<open>main.py\<close>\<close>

text \<open>
  The script is glue around four external collaborators: the URL parser of the standard
  library, the repository host's HTTP API, the vector store and the LLM completion API
  with its tokenizer. Each collaborator is a parameter of the function that calls it, so
  every theorem below holds for whatever the collaborator answers. Python strings are
  modelled as \<^typ>\<open>string\<close>, one \<^typ>\<open>char\<close> per code point (code points below 256).
  Exceptions are values: a function that can raise returns \<open>exn + 'a\<close>.
\<close>

subsection \<open>Exceptions\<close>

datatype exn =
    ValueError string
  | HTTPError string
  | APIError string
  | StoreError string

subsection \<open>The string methods the script calls\<close>

text \<open>\<^verbatim>\<open>ord(c)\<close>: the code point of a character.\<close>

definition ord :: "char \<Rightarrow> nat" where
  "ord c = of_char c"

text \<open>\<^verbatim>\<open>s.strip(chars)\<close>: drops the leading and the trailing characters that are in \<open>chars\<close>.\<close>

definition strip_chars :: "char set \<Rightarrow> string \<Rightarrow> string" where
  "strip_chars cs s = rev (dropWhile (\<lambda>c. c \<in> cs) (rev (dropWhile (\<lambda>c. c \<in> cs) s)))"

text \<open>
  \<^verbatim>\<open>s.split(sep)\<close> for a one-character separator: the pieces between the separators,
  empty pieces kept, so that the empty string splits into one empty piece.
\<close>

fun split_on :: "char \<Rightarrow> string \<Rightarrow> string list" where
  "split_on sep [] = [[]]"
| "split_on sep (x # xs) =
     (if x = sep then [] # split_on sep xs
      else (case split_on sep xs of
              w # ws \<Rightarrow> (x # w) # ws
            | [] \<Rightarrow> [[x]]))"

definition startswith :: "string \<Rightarrow> string \<Rightarrow> bool" where
  "startswith s p = (take (length p) s = p)"

definition endswith :: "string \<Rightarrow> string \<Rightarrow> bool" where
  "endswith s e = (length e \<le> length s \<and> drop (length s - length e) s = e)"

text \<open>
  \<^verbatim>\<open>s.replace(old, new)\<close> for a non-empty \<open>old\<close>: every occurrence of \<open>old\<close>, found from
  the left without overlap, is replaced by \<open>new\<close>.
\<close>

fun replace :: "string \<Rightarrow> string \<Rightarrow> string \<Rightarrow> string" where
  "replace old new [] = []"
| "replace old new (x # xs) =
     (if old \<noteq> [] \<and> startswith (x # xs) old
      then new @ replace old new (drop (length old - 1) xs)
      else x # replace old new xs)"

subsection \<open>\<^verbatim>\<open>get_repo_info\<close>\<close>

text \<open>
  \<^verbatim>\<open>urlparse(repo_url).path\<close> is the library's; \<open>get_repo_info\<close> takes it as the
  parameter \<open>url_path\<close>. The rest is the source: strip the slashes at both ends, split at
  the slashes, fail on fewer than two parts, take part 0 as owner and part 1, with
  \<^verbatim>\<open>.replace('.git', '')\<close> applied, as repository name.
\<close>

definition get_repo_info :: "(string \<Rightarrow> string) \<Rightarrow> string \<Rightarrow> exn + (string \<times> string)" where
  "get_repo_info url_path repo_url =
     (let path_parts = split_on CHR ''/'' (strip_chars {CHR ''/''} (url_path repo_url))
      in if length path_parts < 2 then Inl (ValueError ''Invalid GitHub repository URL.'')
         else let owner = path_parts ! 0;
                  repo = replace ''.git'' '''' (path_parts ! 1)
              in Inr (owner, repo))"

text \<open>
  A model of the library's path component for URLs of the generic shape
  \<^verbatim>\<open>scheme://netloc/path;params?query#fragment\<close>, used for the concrete URLs below: the
  scheme is cut at the first colon when what precedes it is a letter followed by scheme
  characters, the network location runs from \<^verbatim>\<open>//\<close> to the next \<^verbatim>\<open>/\<close>, \<^verbatim>\<open>?\<close> or \<^verbatim>\<open>#\<close>, the
  fragment and the query are cut off, and for the schemes that take parameters the last
  path segment is cut at its first semicolon. The library's removal of control characters
  and its check of bracketed hosts are left out.
\<close>

definition is_alpha :: "char \<Rightarrow> bool" where
  "is_alpha c = ((97 \<le> ord c \<and> ord c \<le> 122) \<or> (65 \<le> ord c \<and> ord c \<le> 90))"

definition is_scheme_char :: "char \<Rightarrow> bool" where
  "is_scheme_char c =
     (is_alpha c \<or> (48 \<le> ord c \<and> ord c \<le> 57) \<or> c \<in> {CHR ''+'', CHR ''-'', CHR ''.''})"

definition lower :: "string \<Rightarrow> string" where
  "lower s = map (\<lambda>c. if 65 \<le> ord c \<and> ord c \<le> 90 then char_of (ord c + 32) else c) s"

definition uses_params :: "string list" where
  "uses_params = ['''', ''ftp'', ''hdl'', ''prospero'', ''http'', ''imap'', ''https'',
     ''shttp'', ''rtsp'', ''rtspu'', ''sip'', ''sips'', ''mms'', ''sftp'', ''tel'']"

definition split_scheme :: "string \<Rightarrow> string \<times> string" where
  "split_scheme url =
     (let pre = takeWhile (\<lambda>c. c \<noteq> CHR '':'') url
      in if length pre < length url \<and> pre \<noteq> [] \<and> is_alpha (hd pre) \<and> list_all is_scheme_char pre
         then (lower pre, drop (length pre + 1) url)
         else ('''', url))"

definition splitparams :: "string \<Rightarrow> string" where
  "splitparams url =
     (let last_seg = rev (takeWhile (\<lambda>c. c \<noteq> CHR ''/'') (rev url))
      in take (length url - length last_seg) url @ takeWhile (\<lambda>c. c \<noteq> CHR '';'') last_seg)"

definition urlparse_path :: "string \<Rightarrow> string" where
  "urlparse_path url =
     (let (scheme, rest) = split_scheme url;
          after_netloc =
            (if take 2 rest = ''//''
             then dropWhile (\<lambda>c. c \<notin> {CHR ''/'', CHR ''?'', CHR ''#''}) (drop 2 rest)
             else rest);
          no_fragment = takeWhile (\<lambda>c. c \<noteq> CHR ''#'') after_netloc;
          no_query = takeWhile (\<lambda>c. c \<noteq> CHR ''?'') no_fragment
      in if scheme \<in> set uses_params then splitparams no_query else no_query)"

text \<open>
  The segments of a path as the specification counts them: the non-empty pieces between
  its slashes.
\<close>

definition path_segments :: "string \<Rightarrow> string list" where
  "path_segments p = filter (\<lambda>s. s \<noteq> []) (split_on CHR ''/'' p)"

subsection \<open>The fetched tree and \<^verbatim>\<open>flatten_contents\<close>\<close>

text \<open>
  A node of the fetched tree is the dictionary \<^verbatim>\<open>{'type': 'file', 'path', 'content'}\<close> or
  \<^verbatim>\<open>{'type': 'dir', 'path', 'contents'}\<close>; a flattened file is \<^verbatim>\<open>{'path', 'content'}\<close>.
  These are the only nodes that \<^verbatim>\<open>get_contents\<close> appends to a tree.
\<close>

datatype node =
    File string string
  | Dir string "node list"

record flat_file =
  doc_path :: string
  doc_content :: string

text \<open>
  The nested \<^verbatim>\<open>_flatten(items)\<close> appends to the enclosing \<^verbatim>\<open>flat_files\<close>; here the list is
  passed in and returned.
\<close>

fun flatten_items :: "node list \<Rightarrow> flat_file list \<Rightarrow> flat_file list" where
  "flatten_items [] flat_files = flat_files"
| "flatten_items (File p c # items) flat_files =
     flatten_items items (flat_files @ [\<lparr>doc_path = p, doc_content = c\<rparr>])"
| "flatten_items (Dir p cs # items) flat_files =
     flatten_items items (flatten_items cs flat_files)"

definition flatten_contents :: "node list \<Rightarrow> flat_file list" where
  "flatten_contents contents = flatten_items contents []"

text \<open>
  The specification's words: the files of a tree in depth-first order, a directory before
  its children and the children in the order given, and the number of file nodes.
\<close>

fun dfs_files :: "node \<Rightarrow> flat_file list" where
  "dfs_files (File p c) = [\<lparr>doc_path = p, doc_content = c\<rparr>]"
| "dfs_files (Dir p cs) = concat (map dfs_files cs)"

fun count_files :: "node \<Rightarrow> nat" where
  "count_files (File p c) = 1"
| "count_files (Dir p cs) = sum_list (map count_files cs)"

subsection \<open>Decimal numerals\<close>

text \<open>What an f-string prints for an integer.\<close>

definition digit_char :: "nat \<Rightarrow> char" where
  "digit_char d = char_of (48 + d)"

fun show_nat :: "nat \<Rightarrow> string" where
  "show_nat n = (if n < 10 then [digit_char n] else show_nat (n div 10) @ [digit_char (n mod 10)])"

declare show_nat.simps [simp del]

definition show_int :: "int \<Rightarrow> string" where
  "show_int i = (if i < 0 then CHR ''-'' # show_nat (nat (- i)) else show_nat (nat i))"

subsection \<open>The vector store: \<^verbatim>\<open>ingest_into_vector_db\<close> and \<^verbatim>\<open>query_vector_db\<close>\<close>

text \<open>
  The store is the library's. Its three operations are the fields of \<open>store_api\<close>, over a
  store state \<open>'st\<close>: each takes the state and the collection's name, and either raises or
  answers (the two that write answer the new state).
\<close>

record add_request =
  documents :: "string list"
  metadatas :: "(string \<rightharpoonup> string) list"
  ids :: "string list"

record 'st store_api =
  get_or_create_collection :: "'st \<Rightarrow> string \<Rightarrow> exn + 'st"
  collection_add :: "'st \<Rightarrow> string \<Rightarrow> add_request \<Rightarrow> exn + 'st"
  collection_query :: "'st \<Rightarrow> string \<Rightarrow> string list \<Rightarrow> int \<Rightarrow> exn + string list list"

text \<open>The three comprehensions of \<^verbatim>\<open>ingest_into_vector_db\<close>.\<close>

definition ingest_request :: "flat_file list \<Rightarrow> add_request" where
  "ingest_request files =
     (let texts = map doc_content files;
          metas = map (\<lambda>file. [''path'' \<mapsto> doc_path file]) files;
          paths = map doc_path files
      in \<lparr>documents = texts, metadatas = metas, ids = paths\<rparr>)"

text \<open>The result is the new store state and the line printed.\<close>

definition ingest_into_vector_db ::
    "'st store_api \<Rightarrow> 'st \<Rightarrow> flat_file list \<Rightarrow> string \<Rightarrow> exn + ('st \<times> string)" where
  "ingest_into_vector_db store st files collection_name =
     (case get_or_create_collection store st collection_name of
        Inl e \<Rightarrow> Inl e
      | Inr st1 \<Rightarrow>
          (case collection_add store st1 collection_name (ingest_request files) of
             Inl e \<Rightarrow> Inl e
           | Inr st2 \<Rightarrow>
               Inr (st2, ''Ingested '' @ show_nat (length files)
                           @ '' documents into the vector database.'')))"




subsection \<open>\<^verbatim>\<open>truncate_to_token_limit\<close>\<close>

text \<open>
  The tokenizer is the library's: \<open>encode\<close> and \<open>decode\<close> are parameters, over any type of
  text and of token. \<open>slice_to tokens n\<close> is Python's \<^verbatim>\<open>tokens[:n]\<close>, which for a negative
  \<open>n\<close> drops the last \<open>- n\<close> elements.
\<close>

record ('t, 'k) tokenizer =
  encode :: "'t \<Rightarrow> 'k list"
  decode :: "'k list \<Rightarrow> 't"

definition slice_to :: "'a list \<Rightarrow> int \<Rightarrow> 'a list" where
  "slice_to xs n = (if 0 \<le> n then take (nat n) xs else take (length xs - nat (- n)) xs)"

definition truncate_to_token_limit :: "('t, 'k) tokenizer \<Rightarrow> 't \<Rightarrow> int \<Rightarrow> 't" where
  "truncate_to_token_limit tokenizer text max_tokens =
     (let tokens = encode tokenizer text
      in if int (length tokens) \<le> max_tokens then text
         else let truncated_tokens = slice_to tokens max_tokens
              in decode tokenizer truncated_tokens)"

text \<open>
  Two sample tokenizers. The first has one token per character. The second is
  byte-level: a text is a list of code points, its tokens are the bytes of its UTF-8
  encoding (code points below 65536), and decoding replaces a byte that starts no
  complete character by the replacement character 65533.
\<close>

definition char_tokenizer :: "(string, char) tokenizer" where
  "char_tokenizer = \<lparr>encode = (\<lambda>text. text), decode = (\<lambda>tokens. tokens)\<rparr>"

definition utf8_bytes :: "nat \<Rightarrow> nat list" where
  "utf8_bytes c =
     (if c < 128 then [c]
      else if c < 2048 then [192 + c div 64, 128 + c mod 64]
      else [224 + c div 4096, 128 + (c div 64) mod 64, 128 + c mod 64])"

definition is_continuation :: "nat \<Rightarrow> bool" where
  "is_continuation b = (128 \<le> b \<and> b < 192)"

fun utf8_decode :: "nat list \<Rightarrow> nat list" where
  "utf8_decode [] = []"
| "utf8_decode [b] = (if b < 128 then [b] else [65533])"
| "utf8_decode [b, c] =
     (if b < 128 then b # utf8_decode [c]
      else if 194 \<le> b \<and> b < 224 \<and> is_continuation c then [(b - 192) * 64 + (c - 128)]
      else 65533 # utf8_decode [c])"
| "utf8_decode (b # c # d # bs) =
     (if b < 128 then b # utf8_decode (c # d # bs)
      else if 194 \<le> b \<and> b < 224 \<and> is_continuation c
        then ((b - 192) * 64 + (c - 128)) # utf8_decode (d # bs)
      else if 224 \<le> b \<and> b < 240 \<and> is_continuation c \<and> is_continuation d
        then ((b - 224) * 4096 + (c - 128) * 64 + (d - 128)) # utf8_decode bs
      else 65533 # utf8_decode (c # d # bs))"

definition byte_tokenizer :: "(nat list, nat) tokenizer" where
  "byte_tokenizer = \<lparr>encode = (\<lambda>text. concat (map utf8_bytes text)), decode = utf8_decode\<rparr>"

subsection \<open>The LLM calls: \<^verbatim>\<open>summarize_text\<close> and \<^verbatim>\<open>generate_gpt4_response\<close>\<close>

text \<open>
  \<^verbatim>\<open>client.chat.completions.create\<close> is the provider's: the parameter \<open>llm\<close> takes the
  state of the world \<open>'w\<close> and the request, and answers the new state together with
  either the exception raised or the content of the first choice's message.
\<close>

record chat_request =
  model :: string
  messages :: "(string \<times> string) list"
  max_tokens :: int
  temperature :: real

type_synonym 'w llm = "'w \<Rightarrow> chat_request \<Rightarrow> (exn + string) \<times> 'w"

definition nl :: string where
  "nl = [CHR 0x0A]"

text \<open>
  \<^verbatim>\<open>s.strip()\<close>: the white space that Python strips, among the code points below 256.
\<close>

definition isspace :: "char \<Rightarrow> bool" where
  "isspace c = (ord c \<in> {9, 10, 11, 12, 13, 28, 29, 30, 31, 32, 133, 160})"

definition strip :: "string \<Rightarrow> string" where
  "strip s = strip_chars {c. isspace c} s"

text \<open>\<^verbatim>\<open>sep.join(xs)\<close>.\<close>

fun join :: "string \<Rightarrow> string list \<Rightarrow> string" where
  "join sep [] = []"
| "join sep [x] = x"
| "join sep (x # y # ys) = x @ sep @ join sep (y # ys)"

definition summary_request :: "string \<Rightarrow> int \<Rightarrow> chat_request" where
  "summary_request text max_tok =
     (let prompt = ''Summarize the following text to '' @ show_int max_tok @ '' tokens:''
                   @ nl @ nl @ text @ nl @ nl @ ''Summary:''
      in \<lparr>model = ''gpt-4'',
          messages = [(''system'', ''You are a helpful assistant that summarizes text.''),
                      (''user'', prompt)],
          max_tokens = max_tok,
          temperature = 1 / 2\<rparr>)"

definition summarize_text :: "'w llm \<Rightarrow> 'w \<Rightarrow> string \<Rightarrow> int \<Rightarrow> (exn + string) \<times> 'w" where
  "summarize_text llm w text max_tok =
     (case llm w (summary_request text max_tok) of
        (Inl e, w1) \<Rightarrow> (Inl e, w1)
      | (Inr response_content, w1) \<Rightarrow> (Inr (strip response_content), w1))"

text \<open>
  The comprehension \<^verbatim>\<open>[summarize_text(doc, max_tokens=200) for doc in context_docs]\<close>: one
  call after the other, the first exception ends it.
\<close>

fun summarize_docs :: "'w llm \<Rightarrow> 'w \<Rightarrow> string list \<Rightarrow> (exn + string list) \<times> 'w" where
  "summarize_docs llm w [] = (Inr [], w)"
| "summarize_docs llm w (doc # docs) =
     (case summarize_text llm w doc 200 of
        (Inl e, w1) \<Rightarrow> (Inl e, w1)
      | (Inr summary, w1) \<Rightarrow>
          (case summarize_docs llm w1 docs of
             (Inl e, w2) \<Rightarrow> (Inl e, w2)
           | (Inr summaries, w2) \<Rightarrow> (Inr (summary # summaries), w2)))"

definition apology :: string where
  "apology = ''I'' @ [CHR 0x27] @ ''m sorry, I couldn'' @ [CHR 0x27]
             @ ''t process your request at the moment.''"

definition answer_request :: "string \<Rightarrow> string \<Rightarrow> chat_request" where
  "answer_request context query =
     (let prompt =
            ''You are an assistant that provides detailed answers based on the following context:''
            @ nl @ nl @ nl @ ''Context:'' @ nl @ context @ nl @ nl @ ''Question:'' @ nl @ query
            @ nl @ nl @ ''Answer:''
      in \<lparr>model = ''gpt-4'',
          messages = [(''system'', ''You are a helpful assistant.''), (''user'', prompt)],
          max_tokens = 1000,
          temperature = 1 / 5\<rparr>)"

text \<open>
  The summaries are computed before the \<^verbatim>\<open>try\<close>; only the last completion call and the
  reading of its answer stand inside it, and there \<^verbatim>\<open>except Exception\<close> answers the apology
  (after printing the exception).
\<close>

definition generate_gpt4_response ::
    "(string, 'k) tokenizer \<Rightarrow> 'w llm \<Rightarrow> 'w \<Rightarrow> string \<Rightarrow> string list \<Rightarrow> int \<Rightarrow> (exn + string) \<times> 'w" where
  "generate_gpt4_response tokenizer llm w query context_docs max_context_tokens =
     (case summarize_docs llm w context_docs of
        (Inl e, w1) \<Rightarrow> (Inl e, w1)
      | (Inr summarized_contexts, w1) \<Rightarrow>
          (let combined_context = join (nl @ nl) summarized_contexts;
               context = truncate_to_token_limit tokenizer combined_context max_context_tokens
           in case llm w1 (answer_request context query) of
                (Inr response_content, w2) \<Rightarrow> (Inr (strip response_content), w2)
              | (Inl e, w2) \<Rightarrow> (Inr apology, w2)))"

subsection \<open>The top-k input of \<^verbatim>\<open>query_main\<close>\<close>

text \<open>
  \<^verbatim>\<open>s.isdigit()\<close> holds of a non-empty string of digit characters; below 256 these are the
  ten decimal digits and the superscripts 1, 2 and 3 (code points 185, 178, 179). \<^verbatim>\<open>int(s)\<close>,
  on a string that passed \<^verbatim>\<open>isdigit\<close>, first counts the decimal digits the string starts
  with and raises \<^verbatim>\<open>ValueError\<close> when they are more than 4300, the interpreter's default
  limit; then it raises \<^verbatim>\<open>ValueError\<close> on a superscript, and otherwise answers the
  decimal value.
\<close>

definition is_decimal_char :: "char \<Rightarrow> bool" where
  "is_decimal_char c = (48 \<le> ord c \<and> ord c \<le> 57)"

definition is_digit_char :: "char \<Rightarrow> bool" where
  "is_digit_char c = (is_decimal_char c \<or> ord c \<in> {178, 179, 185})"

definition isdigit :: "string \<Rightarrow> bool" where
  "isdigit s = (s \<noteq> [] \<and> list_all is_digit_char s)"

definition decimal_value :: "string \<Rightarrow> int" where
  "decimal_value s = foldl (\<lambda>acc c. 10 * acc + int (ord c - 48)) 0 s"

definition int_of_digits :: "string \<Rightarrow> exn + int" where
  "int_of_digits s =
     (if 4300 < length (takeWhile is_decimal_char s)
      then Inl (ValueError ''Exceeds the limit (4300 digits) for integer string conversion'')
      else if list_all is_decimal_char s then Inr (decimal_value s)
      else Inl (ValueError ''invalid literal for int() with base 10''))"

text \<open>
  The value of \<^verbatim>\<open>top_k\<close> that \<^verbatim>\<open>query_main\<close> passes on, from the line the user typed.
\<close>

definition query_main_top_k :: "string \<Rightarrow> exn + int" where
  "query_main_top_k line =
     (let top_k = strip line
      in if \<not> isdigit top_k then Inr 5 else int_of_digits top_k)"

subsection \<open>\<^verbatim>\<open>get_contents\<close>\<close>

text \<open>
  The repository host is a parameter: \<open>get_listing\<close> answers the request for a listing URL
  on the branch \<^verbatim>\<open>main\<close> (an HTTP error, one entry, or a list of entries) and \<open>get_text\<close>
  the request for a raw file. An entry of a listing has the fields \<^verbatim>\<open>type\<close>, \<^verbatim>\<open>path\<close> and \<^verbatim>\<open>download_url\<close>.
\<close>

record item =
  item_type :: string
  item_path :: string
  item_download_url :: string

datatype listing = One item | Many "item list"

record remote =
  get_listing :: "string \<Rightarrow> exn + listing"
  get_text :: "string \<Rightarrow> exn + string"

definition excluded_extensions :: "string list" where
  "excluded_extensions = [''.png'', ''.jpg'', ''.jpeg'', ''.gif'', ''.bmp'', ''.svg'',
     ''.mp4'', ''.mp3'', ''.wav'', ''.avi'', ''.mov'']"

definition is_excluded :: "string \<Rightarrow> bool" where
  "is_excluded p = list_ex (\<lambda>ext. endswith p ext) excluded_extensions"

definition api_url :: "string \<Rightarrow> string \<Rightarrow> string \<Rightarrow> string" where
  "api_url owner repo p =
     ''https://api.github.com/repos/'' @ owner @ ''/'' @ repo @ ''/contents/'' @ p"

definition items_of :: "listing \<Rightarrow> item list" where
  "items_of items = (case items of One i \<Rightarrow> [i] | Many l \<Rightarrow> l)"

text \<open>
  \<open>get_contents\<close> calls itself for every directory, as deep as the host's answers go; the
  first argument bounds the depth of the calls, and \<open>None\<close> is the answer when the bound
  is reached. \<open>get_items\<close> is the loop over the entries, with \<^verbatim>\<open>contents\<close> passed along.
  Both carry the list of the entries whose raw content has been requested so far, and
  answer it with the tree or the exception raised.
\<close>

fun get_contents ::
      "nat \<Rightarrow> remote \<Rightarrow> string \<Rightarrow> string \<Rightarrow> string \<Rightarrow> item list
         \<Rightarrow> ((exn + node list) \<times> item list) option"
  and get_items ::
      "nat \<Rightarrow> remote \<Rightarrow> string \<Rightarrow> string \<Rightarrow> item list \<Rightarrow> node list \<Rightarrow> item list
         \<Rightarrow> ((exn + node list) \<times> item list) option" where
  "get_contents 0 host owner repo p fetched = None"
| "get_contents (Suc depth) host owner repo p fetched =
     (case get_listing host (api_url owner repo p) of
        Inl e \<Rightarrow> Some (Inl e, fetched)
      | Inr items \<Rightarrow> get_items depth host owner repo (items_of items) [] fetched)"
| "get_items depth host owner repo [] contents fetched = Some (Inr contents, fetched)"
| "get_items depth host owner repo (i # items) contents fetched =
     (if item_type i = ''file'' \<and> is_excluded (item_path i)
      then get_items depth host owner repo items contents fetched
      else if item_type i = ''file''
      then (case get_text host (item_download_url i) of
              Inl e \<Rightarrow> Some (Inl e, fetched @ [i])
            | Inr file_content \<Rightarrow>
                get_items depth host owner repo items
                  (contents @ [File (item_path i) file_content]) (fetched @ [i]))
      else if item_type i = ''dir''
      then (case get_contents depth host owner repo (item_path i) fetched of
              None \<Rightarrow> None
            | Some (Inl e, fetched1) \<Rightarrow> Some (Inl e, fetched1)
            | Some (Inr dir_contents, fetched1) \<Rightarrow>
                get_items depth host owner repo items
                  (contents @ [Dir (item_path i) dir_contents]) fetched1)
      else get_items depth host owner repo items contents fetched)"

text \<open>The paths of the file nodes of a tree, at every depth.\<close>

fun file_paths :: "node \<Rightarrow> string list" where
  "file_paths (File p c) = [p]"
| "file_paths (Dir p cs) = concat (map file_paths cs)"

text \<open>
  What the fetcher must keep to: an entry whose raw content is requested is a file with no
  excluded extension, and no file node of the tree has an excluded extension.
\<close>

definition kept_file :: "item \<Rightarrow> bool" where
  "kept_file i = (item_type i = ''file'' \<and> \<not> is_excluded (item_path i))"

definition no_excluded :: "node list \<Rightarrow> bool" where
  "no_excluded t = list_all (\<lambda>p. \<not> is_excluded p) (concat (map file_paths t))"

subsection \<open>Sample collaborators\<close>

text \<open>
  Concrete collaborators for the concrete runs below. The store keeps the list of the
  \<^verbatim>\<open>add\<close> requests it received, with the collection's name, and answers a query with the
  first \<open>n_results\<close> documents of the collection, one list per query text.
\<close>

definition recording_store :: "(string \<times> add_request) list store_api" where
  "recording_store =
     \<lparr>get_or_create_collection = (\<lambda>st name. Inr st),
      collection_add = (\<lambda>st name request. Inr (st @ [(name, request)])),
      collection_query = (\<lambda>st name query_texts n_results.
         Inr (map (\<lambda>q. take (nat n_results)
                (concat (map (\<lambda>(n, r). if n = name then documents r else []) st))) query_texts))\<rparr>"



text \<open>
  Two LLMs whose state counts the calls. The first raises on every call. The second
  answers every summary request (the requests for 200 tokens), and on any other request
  raises or answers, as its first argument says.
\<close>

definition failing_llm :: "nat llm" where
  "failing_llm w request = (Inl (APIError ''timeout''), Suc w)"

definition sample_llm :: "bool \<Rightarrow> nat llm" where
  "sample_llm final_fails w request =
     (if max_tokens request = 200 then (Inr '' a summary '', Suc w)
      else if final_fails then (Inl (APIError ''timeout''), Suc w)
      else (Inr (nl @ ''An answer. ''), Suc w))"

text \<open>
  A repository with the files \<^verbatim>\<open>a.py\<close>, \<^verbatim>\<open>b.png\<close> and \<^verbatim>\<open>c/d.py\<close>.
\<close>

definition sample_host :: remote where
  "sample_host =
     \<lparr>get_listing = (\<lambda>url.
        if url = api_url ''o'' ''r'' []
        then Inr (Many [\<lparr>item_type = ''file'', item_path = ''a.py'', item_download_url = ''raw/a.py''\<rparr>,
                        \<lparr>item_type = ''file'', item_path = ''b.png'', item_download_url = ''raw/b.png''\<rparr>,
                        \<lparr>item_type = ''dir'', item_path = ''c'', item_download_url = []\<rparr>])
        else if url = api_url ''o'' ''r'' ''c''
        then Inr (Many [\<lparr>item_type = ''file'', item_path = ''c/d.py'', item_download_url = ''raw/c/d.py''\<rparr>])
        else Inl (HTTPError ''404'')),
      get_text = (\<lambda>url.
        if url = ''raw/a.py'' then Inr ''x=1''
        else if url = ''raw/c/d.py'' then Inr ''y=2''
        else if url = ''raw/b.png'' then Inr ''PNG''
        else Inl (HTTPError ''404''))\<rparr>"

section \<open>Properties\<close>

subsection \<open>Splitting and stripping\<close>

lemma split_on_nonempty: "split_on sep s \<noteq> []"
  by (induction s) (auto split: list.splits)

lemma split_on_no_sep: "sep \<notin> set s \<Longrightarrow> split_on sep s = [s]"
  by (induction s) auto

lemma split_on_sep_length: "sep \<in> set s \<Longrightarrow> 2 \<le> length (split_on sep s)"
proof (induction s)
  case Nil
  then show ?case by simp
next
  case (Cons x xs)
  show ?case
  proof (cases "x = sep")
    case True
    then show ?thesis using split_on_nonempty [of sep xs]
      by (cases "split_on sep xs") auto
  next
    case False
    with Cons show ?thesis by (auto split: list.splits)
  qed
qed

lemma split_on_append_sep:
  "split_on sep (a @ sep # b) = split_on sep a @ split_on sep b"
  by (induction a) (auto split: list.splits simp: split_on_nonempty)

lemma split_on_replicate: "split_on sep (replicate n sep) = replicate (Suc n) []"
  by (induction n) auto

lemma segments_drop_trailing:
  "filter (\<lambda>w. w \<noteq> []) (split_on sep (a @ replicate n sep)) = filter (\<lambda>w. w \<noteq> []) (split_on sep a)"
proof (cases n)
  case 0
  then show ?thesis by simp
next
  case (Suc m)
  have "a @ replicate (Suc m) sep = a @ sep # replicate m sep" by simp
  then have "split_on sep (a @ replicate (Suc m) sep) = split_on sep a @ replicate (Suc m) []"
    by (simp only: split_on_append_sep split_on_replicate)
  with Suc show ?thesis by simp
qed

lemma segments_drop_leading:
  "filter (\<lambda>w. w \<noteq> []) (split_on sep (dropWhile (\<lambda>c. c = sep) s)) = filter (\<lambda>w. w \<noteq> []) (split_on sep s)"
  by (induction s) auto

lemma strip_decomp:
  "\<exists>n. dropWhile (\<lambda>c. c = sep) s = strip_chars {sep} s @ replicate n sep"
proof -
  let ?u = "dropWhile (\<lambda>c. c = sep) s"
  let ?k = "takeWhile (\<lambda>c. c = sep) (rev ?u)"
  have "?k = replicate (length ?k) sep"
    by (rule replicate_length_same [symmetric]) (auto dest: set_takeWhileD)
  then have "rev ?k = replicate (length ?k) sep"
    by (metis rev_replicate)
  moreover have "?u = rev (dropWhile (\<lambda>c. c = sep) (rev ?u)) @ rev ?k"
    by (metis rev_append rev_rev_ident takeWhile_dropWhile_id)
  ultimately have "?u = strip_chars {sep} s @ replicate (length ?k) sep"
    by (simp add: strip_chars_def)
  then show ?thesis ..
qed

lemma segments_strip:
  "filter (\<lambda>w. w \<noteq> []) (split_on sep (strip_chars {sep} s)) = filter (\<lambda>w. w \<noteq> []) (split_on sep s)"
proof -
  obtain n where "dropWhile (\<lambda>c. c = sep) s = strip_chars {sep} s @ replicate n sep"
    using strip_decomp by blast
  then have "filter (\<lambda>w. w \<noteq> []) (split_on sep (dropWhile (\<lambda>c. c = sep) s)) =
      filter (\<lambda>w. w \<noteq> []) (split_on sep (strip_chars {sep} s))"
    by (simp only: segments_drop_trailing)
  then show ?thesis by (simp only: segments_drop_leading)
qed

lemma strip_chars_hd:
  assumes "strip_chars {sep} s \<noteq> []"
  shows "hd (strip_chars {sep} s) \<noteq> sep"
proof -
  obtain n where d: "dropWhile (\<lambda>c. c = sep) s = strip_chars {sep} s @ replicate n sep"
    using strip_decomp by blast
  with assms have "hd (dropWhile (\<lambda>c. c = sep) s) = hd (strip_chars {sep} s)"
    by simp
  moreover have "dropWhile (\<lambda>c. c = sep) s \<noteq> []"
    using d assms by simp
  then have "hd (dropWhile (\<lambda>c. c = sep) s) \<noteq> sep"
    using hd_dropWhile [of "\<lambda>c. c = sep" s] by simp
  ultimately show ?thesis by simp
qed

lemma strip_chars_last:
  assumes "strip_chars {sep} s \<noteq> []"
  shows "last (strip_chars {sep} s) \<noteq> sep"
proof -
  let ?d = "dropWhile (\<lambda>c. c = sep) (rev (dropWhile (\<lambda>c. c = sep) s))"
  have ne: "?d \<noteq> []" using assms by (simp add: strip_chars_def)
  then have "hd ?d \<noteq> sep"
    using hd_dropWhile [of "\<lambda>c. c = sep" "rev (dropWhile (\<lambda>c. c = sep) s)"] by simp
  moreover have "last (rev ?d) = hd ?d" using ne by (simp add: last_rev)
  ultimately show ?thesis by (simp add: strip_chars_def)
qed

lemma split_on_hd: "s \<noteq> [] \<Longrightarrow> hd s \<noteq> sep \<Longrightarrow> hd (split_on sep s) \<noteq> []"
  by (cases s) (auto split: list.splits)

lemma split_on_last: "s \<noteq> [] \<Longrightarrow> last s \<noteq> sep \<Longrightarrow> last (split_on sep s) \<noteq> []"
proof (induction s)
  case Nil
  then show ?case by simp
next
  case (Cons x xs)
  then show ?case
    by (cases "xs = []") (auto split: list.splits simp: split_on_nonempty)
qed

lemma filter_two:
  assumes "2 \<le> length xs" and "P (hd xs)" and "P (last xs)"
  shows "2 \<le> length (filter P xs)"
proof -
  obtain a ys where xs: "xs = a # ys" and ys: "ys \<noteq> []"
    using assms(1) by (cases xs) (auto simp: Suc_le_eq)
  from xs ys assms(3) have "P (last ys)" by simp
  with ys have "filter P ys \<noteq> []"
    by (metis filter_empty_conv last_in_set)
  then have "1 \<le> length (filter P ys)"
    by (cases "filter P ys") auto
  with xs assms(2) show ?thesis by simp
qed

lemma split_on_short_iff:
  "(length (split_on sep (strip_chars {sep} p)) < 2) = (length (filter (\<lambda>w. w \<noteq> []) (split_on sep p)) < 2)"
proof (cases "sep \<in> set (strip_chars {sep} p)")
  case False
  then have one: "split_on sep (strip_chars {sep} p) = [strip_chars {sep} p]"
    by (rule split_on_no_sep)
  have "filter (\<lambda>w. w \<noteq> []) (split_on sep p) = filter (\<lambda>w. w \<noteq> []) [strip_chars {sep} p]"
    using segments_strip [of sep p] one by simp
  then have "length (filter (\<lambda>w. w \<noteq> []) (split_on sep p)) < 2" by simp
  with one show ?thesis by simp
next
  case True
  let ?t = "strip_chars {sep} p"
  from True have ne: "?t \<noteq> []" by auto
  have long: "2 \<le> length (split_on sep ?t)"
    using True by (rule split_on_sep_length)
  have "hd (split_on sep ?t) \<noteq> []"
    using ne strip_chars_hd [OF ne] by (rule split_on_hd)
  moreover have "last (split_on sep ?t) \<noteq> []"
    using ne strip_chars_last [OF ne] by (rule split_on_last)
  ultimately have "2 \<le> length (filter (\<lambda>w. w \<noteq> []) (split_on sep ?t))"
    using long by (intro filter_two)
  then have "2 \<le> length (filter (\<lambda>w. w \<noteq> []) (split_on sep p))"
    by (simp only: segments_strip)
  with long show ?thesis by simp
qed

subsection \<open>The repository URL parser\<close>

text \<open>
  Claim C1. The repository name is the second path segment with only a trailing
  \<^verbatim>\<open>.git\<close> removed. The source calls \<^verbatim>\<open>.replace('.git', '')\<close>, which removes every
  occurrence: for the URL of a GitHub Pages repository the name that comes back has lost
  the \<^verbatim>\<open>.git\<close> inside \<^verbatim>\<open>.github\<close>, and is not the name of the repository.
\<close>

theorem get_repo_info_inner_git_removed:
  "get_repo_info urlparse_path ''https://github.com/octocat/octocat.github.io''
     = Inr (''octocat'', ''octocathub.io'')"
  by code_simp

text \<open>
  Claim C8. The parser raises its \<^verbatim>\<open>ValueError\<close> exactly when the path of the URL has
  fewer than two non-empty segments, and answers an owner and a name exactly when it has
  two or more; this for whatever path the library's URL parser answers.
\<close>

theorem get_repo_info_fails_iff:
  "(get_repo_info url_path repo_url = Inl (ValueError ''Invalid GitHub repository URL.''))
     = (length (path_segments (url_path repo_url)) < 2)
   \<and> (\<exists>owner repo. get_repo_info url_path repo_url = Inr (owner, repo))
     = (2 \<le> length (path_segments (url_path repo_url)))"
  using split_on_short_iff [of "CHR ''/''" "url_path repo_url"]
  by (auto simp: get_repo_info_def path_segments_def Let_def)

subsection \<open>The flattener\<close>

lemma flatten_items_dfs:
  "flatten_items items flat_files = flat_files @ concat (map dfs_files items)"
  by (induction items flat_files rule: flatten_items.induct) simp_all

lemma length_dfs_files: "length (dfs_files t) = count_files t"
proof (induction t)
  case (File p c)
  show ?case by simp
next
  case (Dir p cs)
  then have "length (concat (map dfs_files cs)) = sum_list (map count_files cs)"
    by (induction cs) simp_all
  then show ?case by simp
qed

text \<open>
  Claim C5. Flattening is total and answers exactly the files of the tree in depth-first
  order: a directory contributes the files of its children, in the order of the children
  and at the place of the directory, and no record of its own; a file contributes its
  path and content. The number of records is the number of file nodes, whatever the
  number of directory nodes.
\<close>

theorem flatten_contents_dfs:
  "flatten_contents contents = concat (map dfs_files contents)
   \<and> length (flatten_contents contents) = sum_list (map count_files contents)
   \<and> flatten_contents (Dir p cs # rest) = flatten_contents cs @ flatten_contents rest
   \<and> flatten_contents (File p c # rest) = \<lparr>doc_path = p, doc_content = c\<rparr> # flatten_contents rest"
  by (simp add: flatten_contents_def flatten_items_dfs length_concat comp_def length_dfs_files)

subsection \<open>The vector store\<close>

text \<open>
  Claim C10. The three sequences handed to the store have the length of the file
  sequence, and at every index the document is the file's content, the metadata is
  the dictionary with the one key \<^verbatim>\<open>path\<close> bound to the file's path, and the id is that
  path; when the collection is there, this request is what the store's \<^verbatim>\<open>add\<close> receives.
\<close>

theorem ingest_alignment:
  "length (documents (ingest_request files)) = length files
   \<and> length (metadatas (ingest_request files)) = length files
   \<and> length (ids (ingest_request files)) = length files
   \<and> (\<forall>i<length files.
         documents (ingest_request files) ! i = doc_content (files ! i)
         \<and> metadatas (ingest_request files) ! i = [''path'' \<mapsto> doc_path (files ! i)]
         \<and> ids (ingest_request files) ! i = doc_path (files ! i))
   \<and> (get_or_create_collection store st name = Inr st1 \<longrightarrow>
        ingest_into_vector_db store st files name =
          (case collection_add store st1 name (ingest_request files) of
             Inl e \<Rightarrow> Inl e
           | Inr st2 \<Rightarrow> Inr (st2, ''Ingested '' @ show_nat (length files) @ '' documents into the vector database.'')))"
  by (simp add: ingest_request_def ingest_into_vector_db_def)

lemma show_nat_2: "show_nat (Suc (Suc 0)) = ''2''"
  by code_simp

text \<open>
  The theorem at the two files \<^verbatim>\<open>a.py\<close> and \<^verbatim>\<open>c/d.py\<close>, with the store that records its
  requests.
\<close>

theorem ingest_alignment_witness:
  "documents (ingest_request [\<lparr>doc_path = ''a.py'', doc_content = ''x=1''\<rparr>,
                              \<lparr>doc_path = ''c/d.py'', doc_content = ''y=2''\<rparr>]) ! 1 = ''y=2''
   \<and> metadatas (ingest_request [\<lparr>doc_path = ''a.py'', doc_content = ''x=1''\<rparr>,
                              \<lparr>doc_path = ''c/d.py'', doc_content = ''y=2''\<rparr>]) ! 1 = [''path'' \<mapsto> ''c/d.py'']
   \<and> ids (ingest_request [\<lparr>doc_path = ''a.py'', doc_content = ''x=1''\<rparr>,
                              \<lparr>doc_path = ''c/d.py'', doc_content = ''y=2''\<rparr>]) ! 1 = ''c/d.py''
   \<and> ingest_into_vector_db recording_store [] [\<lparr>doc_path = ''a.py'', doc_content = ''x=1''\<rparr>,
                              \<lparr>doc_path = ''c/d.py'', doc_content = ''y=2''\<rparr>] ''t''
       = Inr ([(''t'', \<lparr>documents = [''x=1'', ''y=2''],
                        metadatas = [[''path'' \<mapsto> ''a.py''], [''path'' \<mapsto> ''c/d.py'']],
                        ids = [''a.py'', ''c/d.py'']\<rparr>)],
              ''Ingested 2 documents into the vector database.'')"
  using ingest_alignment [of "[\<lparr>doc_path = ''a.py'', doc_content = ''x=1''\<rparr>,
                              \<lparr>doc_path = ''c/d.py'', doc_content = ''y=2''\<rparr>]" recording_store "[]" "''t''" "[]"]
  by (simp add: recording_store_def ingest_request_def show_nat_2 del: show_nat.simps)





subsection \<open>The token-budget truncator\<close>

text \<open>
  Claim C4, amended. For a limit that is not negative: a text of at most that many tokens
  comes back unchanged, and truncating it again changes nothing; a text of more tokens
  comes back as the decoding of exactly its first \<open>n\<close> tokens. When encoding that decoded
  prefix gives the prefix back, the result has exactly \<open>n\<close> tokens and truncating it again
  changes nothing.
\<close>

theorem truncate_to_token_limit_spec:
  assumes "0 \<le> n"
  shows "(int (length (encode tk text)) \<le> n \<longrightarrow>
            truncate_to_token_limit tk text n = text
          \<and> truncate_to_token_limit tk (truncate_to_token_limit tk text n) n = truncate_to_token_limit tk text n)
       \<and> (n < int (length (encode tk text)) \<longrightarrow>
            truncate_to_token_limit tk text n = decode tk (take (nat n) (encode tk text))
          \<and> int (length (take (nat n) (encode tk text))) = n
          \<and> (encode tk (decode tk (take (nat n) (encode tk text))) = take (nat n) (encode tk text) \<longrightarrow>
               int (length (encode tk (truncate_to_token_limit tk text n))) = n
             \<and> truncate_to_token_limit tk (truncate_to_token_limit tk text n) n
                 = truncate_to_token_limit tk text n))"
  using assms by (auto simp: truncate_to_token_limit_def slice_to_def Let_def)

text \<open>
  The theorem with one token per character, at a text within the limit and at a text
  beyond it.
\<close>

theorem truncate_to_token_limit_spec_witness:
  "truncate_to_token_limit char_tokenizer ''abc'' 5 = ''abc''
   \<and> truncate_to_token_limit char_tokenizer ''abcdef'' 3 = ''abc''
   \<and> int (length (encode char_tokenizer (truncate_to_token_limit char_tokenizer ''abcdef'' 3))) = 3
   \<and> truncate_to_token_limit char_tokenizer (truncate_to_token_limit char_tokenizer ''abcdef'' 3) 3
       = truncate_to_token_limit char_tokenizer ''abcdef'' 3"
  using truncate_to_token_limit_spec [of 5 char_tokenizer "''abc''"]
        truncate_to_token_limit_spec [of 3 char_tokenizer "''abcdef''"]
  by (simp add: char_tokenizer_def truncate_to_token_limit_def slice_to_def)

text \<open>
  Claim C4 as stated fails without the two conditions. With the byte-level tokenizer the
  one-character text of code point 233 has two tokens; cut to one token it decodes to
  the replacement character, whose encoding has three tokens, not one. With a negative
  limit Python's slice drops tokens from the end, and truncating twice is not truncating
  once.
\<close>

theorem truncate_reencode_counterexample:
  "length (encode byte_tokenizer [233]) = 2
   \<and> truncate_to_token_limit byte_tokenizer [233] 1 = [65533]
   \<and> length (encode byte_tokenizer (truncate_to_token_limit byte_tokenizer [233] 1)) = 3
   \<and> truncate_to_token_limit char_tokenizer ''abc'' (- 1) = ''ab''
   \<and> truncate_to_token_limit char_tokenizer (truncate_to_token_limit char_tokenizer ''abc'' (- 1)) (- 1) = ''a''"
  by (simp add: truncate_to_token_limit_def slice_to_def byte_tokenizer_def char_tokenizer_def
      utf8_bytes_def is_continuation_def)

subsection \<open>The summarizer and the answer generator\<close>

lemma summarize_docs_append:
  "summarize_docs llm w (pre @ rest) =
     (case summarize_docs llm w pre of
        (Inl e, w1) \<Rightarrow> (Inl e, w1)
      | (Inr ss, w1) \<Rightarrow>
          (case summarize_docs llm w1 rest of
             (Inl e, w2) \<Rightarrow> (Inl e, w2)
           | (Inr ss', w2) \<Rightarrow> (Inr (ss @ ss'), w2)))"
  by (induction pre arbitrary: w) (auto split: prod.splits sum.splits)

text \<open>
  Claim C2, amended. When the summaries of the first documents succeed and the
  summarizer's call for the next document raises, \<open>generate_gpt4_response\<close> raises that
  exception: the summaries are computed outside the \<^verbatim>\<open>try\<close>, no apology is answered and
  the answering call is never made.
\<close>

theorem summarizer_failure_escapes:
  assumes "summarize_docs llm w pre = (Inr summaries, w1)"
      and "llm w1 (summary_request doc 200) = (Inl e, w2)"
  shows "generate_gpt4_response tk llm w query (pre @ doc # post) n = (Inl e, w2)"
  using assms
  by (simp add: generate_gpt4_response_def summarize_docs_append summarize_text_def)

text \<open>
  The theorem at one document, with the LLM that raises on every call.
\<close>

theorem summarizer_failure_escapes_witness:
  "generate_gpt4_response char_tokenizer failing_llm 0 ''q'' [''doc''] 6000
     = (Inl (APIError ''timeout''), 1)"
  using summarizer_failure_escapes [of failing_llm 0 "[]" "[]" 0 "''doc''" "APIError ''timeout''" 1
          char_tokenizer "''q''" "[]" 6000]
  by (simp add: failing_llm_def)

text \<open>
  Claim C2 as stated fails: with that LLM the answer generator does not answer the
  apology; the summarizer's exception leaves it.
\<close>

theorem summarizer_failure_not_apology:
  "generate_gpt4_response char_tokenizer failing_llm 0 ''q'' [''doc''] 6000
     = (Inl (APIError ''timeout''), 1)
   \<and> fst (generate_gpt4_response char_tokenizer failing_llm 0 ''q'' [''doc''] 6000) \<noteq> Inr apology"
  by (simp add: generate_gpt4_response_def summarize_text_def failing_llm_def)

text \<open>
  Claim C6. Once the summaries are there, the answer generator makes the answering
  call: when that call raises, the answer is the fixed apology, and no exception; when it
  answers, the answer is the stripped content of the completion.
\<close>

theorem generate_gpt4_response_final_call:
  assumes "summarize_docs llm w context_docs = (Inr summaries, w1)"
  shows "(llm w1 (answer_request (truncate_to_token_limit tk (join (nl @ nl) summaries) n) query) = (Inl e, w2)
            \<longrightarrow> generate_gpt4_response tk llm w query context_docs n = (Inr apology, w2))
       \<and> (llm w1 (answer_request (truncate_to_token_limit tk (join (nl @ nl) summaries) n) query) = (Inr response_content, w2)
            \<longrightarrow> generate_gpt4_response tk llm w query context_docs n = (Inr (strip response_content), w2))"
  using assms by (simp add: generate_gpt4_response_def)

lemma sample_summaries:
  "summarize_docs (sample_llm b) 0 [''d1'', ''d2''] = (Inr [''a summary'', ''a summary''], 2)"
  by (simp add: summarize_text_def sample_llm_def summary_request_def strip_def strip_chars_def
      isspace_def ord_def)

lemma strip_answer: "strip (nl @ ''An answer. '') = ''An answer.''"
  by (simp add: strip_def strip_chars_def isspace_def ord_def nl_def)

text \<open>
  The theorem at two documents, with the sample LLM whose answering call raises and
  with the one whose answering call answers.
\<close>

theorem generate_gpt4_response_final_call_witness:
  "generate_gpt4_response char_tokenizer (sample_llm True) 0 ''q'' [''d1'', ''d2''] 6000
     = (Inr apology, 3)
   \<and> generate_gpt4_response char_tokenizer (sample_llm False) 0 ''q'' [''d1'', ''d2''] 6000
     = (Inr ''An answer.'', 3)"
  using generate_gpt4_response_final_call [OF sample_summaries [of True],
          of char_tokenizer 6000 "''q''" "APIError ''timeout''" 3 "nl @ ''An answer. ''"]
        generate_gpt4_response_final_call [OF sample_summaries [of False],
          of char_tokenizer 6000 "''q''" "APIError ''timeout''" 3 "nl @ ''An answer. ''"]
  by (simp add: sample_llm_def answer_request_def strip_answer)

subsection \<open>The top-k input\<close>

lemma ord_digit_char: "d < 10 \<Longrightarrow> ord (digit_char d) = 48 + d"
  by (simp add: ord_def digit_char_def)

lemma decimal_not_space: "is_decimal_char c \<Longrightarrow> \<not> isspace c"
  by (auto simp: is_decimal_char_def isspace_def)

lemma decimal_digit_char: "d < 10 \<Longrightarrow> is_decimal_char (digit_char d)"
  by (simp add: is_decimal_char_def ord_digit_char)

lemma show_nat_decimal: "list_all is_decimal_char (show_nat n)"
proof (induction n rule: show_nat.induct)
  case (1 n)
  show ?case
  proof (cases "n < 10")
    case True
    then show ?thesis by (simp add: show_nat.simps [of n] decimal_digit_char)
  next
    case False
    with 1 show ?thesis by (simp add: show_nat.simps [of n] decimal_digit_char)
  qed
qed

lemma show_nat_nonempty: "show_nat n \<noteq> []"
  by (simp add: show_nat.simps [of n])

lemma decimal_value_snoc:
  "decimal_value (s @ [c]) = 10 * decimal_value s + int (ord c - 48)"
  by (simp add: decimal_value_def)

lemma decimal_value_show_nat: "decimal_value (show_nat n) = int n"
proof (induction n rule: show_nat.induct)
  case (1 n)
  show ?case
  proof (cases "n < 10")
    case True
    then show ?thesis by (simp add: show_nat.simps [of n] decimal_value_def ord_digit_char)
  next
    case False
    then have "decimal_value (show_nat (n div 10)) = int (n div 10)" by (rule 1)
    then have "decimal_value (show_nat n) = 10 * int (n div 10) + int (n mod 10)"
      using False by (simp add: show_nat.simps [of n] decimal_value_snoc ord_digit_char)
    then show ?thesis by (simp add: zdiv_int zmod_int)
  qed
qed

lemma decimal_value_nonneg: "0 \<le> decimal_value s"
proof (induction s rule: rev_induct)
  case Nil
  show ?case by (simp add: decimal_value_def)
next
  case (snoc c s)
  then show ?case by (simp add: decimal_value_snoc)
qed

lemma strip_chars_id:
  assumes "s \<noteq> []" and "hd s \<notin> cs" and "last s \<notin> cs"
  shows "strip_chars cs s = s"
proof -
  have "dropWhile (\<lambda>c. c \<in> cs) s = s"
    using assms by (cases s) auto
  moreover have "dropWhile (\<lambda>c. c \<in> cs) (rev s) = rev s"
    using assms by (cases "rev s") (auto simp: hd_rev)
  ultimately show ?thesis by (simp add: strip_chars_def)
qed

lemma strip_decimal:
  assumes "s \<noteq> []" and "list_all is_decimal_char s"
  shows "strip s = s"
proof -
  from assms have "is_decimal_char (hd s)" and "is_decimal_char (last s)"
    by (auto simp: list_all_iff)
  then show ?thesis
    using assms(1) by (simp add: strip_def strip_chars_id decimal_not_space)
qed

lemma decimal_isdigit: "s \<noteq> [] \<Longrightarrow> list_all is_decimal_char s \<Longrightarrow> isdigit s"
  by (auto simp: isdigit_def is_digit_char_def list_all_iff)

text \<open>
  Claim C3, amended. When the stripped input is not a non-empty string of digit
  characters, \<open>k\<close> is 5. When it is a non-empty string of at most 4300 decimal digits (the
  interpreter's default limit for \<^verbatim>\<open>int\<close>), \<open>k\<close> is its decimal value, which is not
  negative and may be 0; in particular the decimal numeral of \<open>n\<close>, when it has at most
  4300 digits, gives \<open>k = n\<close>.
\<close>

theorem query_main_top_k_spec:
  "(\<not> isdigit (strip line) \<longrightarrow> query_main_top_k line = Inr 5)
   \<and> (strip line \<noteq> [] \<and> list_all is_decimal_char (strip line) \<and> length (strip line) \<le> 4300 \<longrightarrow>
        query_main_top_k line = Inr (decimal_value (strip line)) \<and> 0 \<le> decimal_value (strip line))
   \<and> (length (show_nat n) \<le> 4300 \<longrightarrow> query_main_top_k (show_nat n) = Inr (int n))"
proof -
  have short: "\<not> 4300 < length (takeWhile is_decimal_char s)" if "length s \<le> 4300" for s
    using that length_takeWhile_le [of is_decimal_char s] by simp
  have "query_main_top_k (show_nat n) = Inr (int n)" if "length (show_nat n) \<le> 4300"
    using show_nat_decimal [of n] show_nat_nonempty [of n] short [OF that]
    by (simp add: query_main_top_k_def strip_decimal decimal_isdigit int_of_digits_def
        decimal_value_show_nat)
  moreover have "query_main_top_k line = Inr (decimal_value (strip line))"
    if "strip line \<noteq> []" and "list_all is_decimal_char (strip line)"
      and "length (strip line) \<le> 4300"
    using that short [OF that(3)]
    by (simp add: query_main_top_k_def decimal_isdigit int_of_digits_def)
  moreover have "\<not> isdigit (strip line) \<longrightarrow> query_main_top_k line = Inr 5"
    by (simp add: query_main_top_k_def)
  ultimately show ?thesis
    using decimal_value_nonneg by blast
qed

lemma strip_12: "strip '' 12 '' = ''12''"
  by (simp add: strip_def strip_chars_def isspace_def ord_def)

lemma strip_abc: "strip ''abc'' = ''abc''"
  by (simp add: strip_def strip_chars_def isspace_def ord_def)

lemma show_nat_7: "show_nat 7 = ''7''"
  by code_simp

text \<open>
  The theorem at the inputs \<^verbatim>\<open>abc\<close>, \<^verbatim>\<open> 12 \<close> and \<^verbatim>\<open>7\<close>.
\<close>

theorem query_main_top_k_spec_witness:
  "query_main_top_k ''abc'' = Inr 5 \<and> query_main_top_k '' 12 '' = Inr 12 \<and> query_main_top_k ''7'' = Inr 7"
  using query_main_top_k_spec [of "''abc''" 7] query_main_top_k_spec [of "'' 12 ''" 7]
  by (simp add: strip_12 strip_abc show_nat_7 isdigit_def is_digit_char_def is_decimal_char_def
      ord_def decimal_value_def)

lemma ones_decimal: "list_all is_decimal_char (replicate n (CHR ''1''))"
  by (simp add: list_all_iff is_decimal_char_def ord_def)

lemma top_k_of_ones:
  assumes "4300 < n"
  shows "query_main_top_k (replicate n (CHR ''1''))
     = Inl (ValueError ''Exceeds the limit (4300 digits) for integer string conversion'')"
proof -
  let ?s = "replicate n (CHR ''1'')"
  have ne: "?s \<noteq> []" using assms by auto
  have "is_decimal_char (CHR ''1'')"
    by (simp add: is_decimal_char_def ord_def)
  then have "takeWhile is_decimal_char ?s = ?s"
    by simp
  then have big: "4300 < length (takeWhile is_decimal_char ?s)"
    using assms by simp
  have stripped: "strip ?s = ?s"
    using ne ones_decimal by (rule strip_decimal)
  have "isdigit ?s"
    using ne ones_decimal by (rule decimal_isdigit)
  with big show ?thesis
    unfolding query_main_top_k_def Let_def stripped int_of_digits_def by simp
qed

text \<open>
  Claim C3 as stated fails at the input \<^verbatim>\<open>0\<close>: it passes \<^verbatim>\<open>isdigit\<close>, and \<open>k\<close> is 0, not
  the default 5. It fails too at the positive integer written with 4301 ones, where
  \<^verbatim>\<open>int\<close> raises and no \<open>k\<close> is used.
\<close>

theorem query_main_top_k_zero:
  "query_main_top_k ''0'' = Inr 0 \<and> query_main_top_k ''0'' \<noteq> Inr 5
   \<and> query_main_top_k (replicate 4301 (CHR ''1''))
     = Inl (ValueError ''Exceeds the limit (4300 digits) for integer string conversion'')"
proof -
  have zero: "query_main_top_k ''0'' = Inr 0"
    by (simp add: query_main_top_k_def strip_def strip_chars_def isspace_def ord_def isdigit_def
        is_digit_char_def is_decimal_char_def int_of_digits_def decimal_value_def)
  then have not_five: "query_main_top_k ''0'' \<noteq> Inr 5"
    by simp
  have ones: "query_main_top_k (replicate 4301 (CHR ''1''))
      = Inl (ValueError ''Exceeds the limit (4300 digits) for integer string conversion'')"
    by (rule top_k_of_ones) simp
  from zero not_five ones show ?thesis
    by (intro conjI)
qed

subsection \<open>The repository tree fetcher\<close>

lemma no_excluded_simps:
  "no_excluded []"
  "no_excluded (t @ [File p c]) = (no_excluded t \<and> \<not> is_excluded p)"
  "no_excluded (t @ [Dir p cs]) = (no_excluded t \<and> no_excluded cs)"
  by (auto simp: no_excluded_def)

lemma get_contents_kept:
  "get_contents depth host owner repo p fetched = Some (res, fetched') \<Longrightarrow>
     list_all kept_file fetched \<Longrightarrow>
     list_all kept_file fetched' \<and> (\<forall>t. res = Inr t \<longrightarrow> no_excluded t)"
  "get_items depth host owner repo items contents fetched = Some (res, fetched') \<Longrightarrow>
     list_all kept_file fetched \<Longrightarrow> no_excluded contents \<Longrightarrow>
     list_all kept_file fetched' \<and> (\<forall>t. res = Inr t \<longrightarrow> no_excluded t)"
proof (induction depth host owner repo p fetched and depth host owner repo items contents fetched
       arbitrary: res fetched' and res fetched' rule: get_contents_get_items.induct)
  case (1 host owner repo p fetched)
  then show ?case by simp
next
  case (2 depth host owner repo p fetched)
  then show ?case
    by (auto split: sum.splits simp: no_excluded_simps)
next
  case (3 depth host owner repo contents fetched)
  then show ?case by auto
next
  case (4 depth host owner repo i items contents fetched)
  note run_all = \<open>get_items depth host owner repo (i # items) contents fetched = Some (res, fetched')\<close>
  note kept = \<open>list_all kept_file fetched\<close>
  note clean = \<open>no_excluded contents\<close>
  show ?case
  proof (cases "item_type i = ''file'' \<and> is_excluded (item_path i)")
    case True
    with run_all have "get_items depth host owner repo items contents fetched = Some (res, fetched')"
      by simp
    with True show ?thesis
      using kept clean by (rule "4.IH"(1))
  next
    case not_skipped: False
    show ?thesis
    proof (cases "item_type i = ''file''")
      case is_file: True
      with not_skipped have keep: "kept_file i" by (simp add: kept_file_def)
      with kept have kept1: "list_all kept_file (fetched @ [i])" by simp
      show ?thesis
      proof (cases "get_text host (item_download_url i)")
        case (Inl e)
        with run_all not_skipped is_file have "res = Inl e" and "fetched' = fetched @ [i]"
          by simp_all
        with kept1 show ?thesis by simp
      next
        case (Inr file_content)
        with run_all not_skipped is_file
        have run: "get_items depth host owner repo items
               (contents @ [File (item_path i) file_content]) (fetched @ [i]) = Some (res, fetched')"
          by simp
        from clean not_skipped is_file
        have "no_excluded (contents @ [File (item_path i) file_content])"
          by (simp add: no_excluded_simps)
        with not_skipped is_file Inr run kept1 show ?thesis by (rule "4.IH"(2))
      qed
    next
      case not_file: False
      show ?thesis
      proof (cases "item_type i = ''dir''")
        case is_dir: True
        show ?thesis
        proof (cases "get_contents depth host owner repo (item_path i) fetched")
          case None
          with run_all not_file is_dir show ?thesis by simp
        next
          case (Some r)
          obtain res1 fetched1 where r: "r = (res1, fetched1)" by (cases r)
          with Some have inner: "get_contents depth host owner repo (item_path i) fetched
              = Some (res1, fetched1)"
            by simp
          from not_skipped not_file is_dir inner kept
          have sub: "list_all kept_file fetched1 \<and> (\<forall>t. res1 = Inr t \<longrightarrow> no_excluded t)"
            by (rule "4.IH"(3))
          show ?thesis
          proof (cases res1)
            case (Inl e)
            with run_all not_file is_dir inner have "res = Inl e" and "fetched' = fetched1"
              by simp_all
            with sub show ?thesis by simp
          next
            case (Inr dir_contents)
            with run_all not_file is_dir inner
            have run: "get_items depth host owner repo items
                   (contents @ [Dir (item_path i) dir_contents]) fetched1 = Some (res, fetched')"
              by simp
            from sub have kept1: "list_all kept_file fetched1" by simp
            from clean sub Inr
            have clean1: "no_excluded (contents @ [Dir (item_path i) dir_contents])"
              by (simp add: no_excluded_simps)
            from not_skipped not_file is_dir inner refl Inr run kept1 clean1
            show ?thesis by (rule "4.IH"(4))
          qed
        qed
      next
        case not_dir: False
        with run_all not_file
        have "get_items depth host owner repo items contents fetched = Some (res, fetched')"
          by simp
        with not_skipped not_file not_dir show ?thesis
          using kept clean by (rule "4.IH"(5))
      qed
    qed
  qed
qed

text \<open>
  Claim C7. For every extension of the denylist: in a run of \<open>get_contents\<close> that answers,
  with a tree or with an exception, every entry whose raw content was requested is a file
  whose path does not end with the extension, and no file node at any depth of the tree
  has a path that ends with it; the loop passes over a file entry whose path ends with
  the extension, leaving the tree built so far and the requests made so far as they are.
\<close>

theorem excluded_files_never_fetched:
  assumes "get_contents depth host owner repo p [] = Some (res, fetched)"
      and "ext \<in> set excluded_extensions"
  shows "(\<forall>i \<in> set fetched. item_type i = ''file'' \<and> \<not> endswith (item_path i) ext)
       \<and> (\<forall>t. res = Inr t \<longrightarrow> (\<forall>n \<in> set t. \<forall>fp \<in> set (file_paths n). \<not> endswith fp ext))
       \<and> (\<forall>i items contents done.
             item_type i = ''file'' \<and> endswith (item_path i) ext \<longrightarrow>
             get_items depth host owner repo (i # items) contents done
               = get_items depth host owner repo items contents done)"
proof -
  have ex: "is_excluded q" if "endswith q ext" for q
    using that assms(2) by (auto simp: is_excluded_def list_ex_iff)
  from get_contents_kept(1) [OF assms(1)]
  have kept: "list_all kept_file fetched" and tree: "\<forall>t. res = Inr t \<longrightarrow> no_excluded t"
    by simp_all
  have "\<forall>i \<in> set fetched. item_type i = ''file'' \<and> \<not> endswith (item_path i) ext"
    using kept ex by (auto simp: kept_file_def list_all_iff)
  moreover have "\<forall>t. res = Inr t \<longrightarrow> (\<forall>n \<in> set t. \<forall>fp \<in> set (file_paths n). \<not> endswith fp ext)"
  proof (intro allI impI ballI)
    fix t n fp
    assume "res = Inr t" and "n \<in> set t" and "fp \<in> set (file_paths n)"
    with tree have "\<not> is_excluded fp"
      by (auto simp: no_excluded_def list_all_iff)
    with ex show "\<not> endswith fp ext" by blast
  qed
  moreover have "\<forall>i items contents done.
             item_type i = ''file'' \<and> endswith (item_path i) ext \<longrightarrow>
             get_items depth host owner repo (i # items) contents done
               = get_items depth host owner repo items contents done"
    using ex by simp
  ultimately show ?thesis by blast
qed

lemma sample_fetch:
  "get_contents 2 sample_host ''o'' ''r'' [] [] =
     Some (Inr [File ''a.py'' ''x=1'', Dir ''c'' [File ''c/d.py'' ''y=2'']],
           [\<lparr>item_type = ''file'', item_path = ''a.py'', item_download_url = ''raw/a.py''\<rparr>,
            \<lparr>item_type = ''file'', item_path = ''c/d.py'', item_download_url = ''raw/c/d.py''\<rparr>])"
  by code_simp

text \<open>
  The theorem at the sample repository and the extension \<^verbatim>\<open>.png\<close>: the tree has the two
  Python files, the raw content of \<^verbatim>\<open>b.png\<close> was not requested, and the loop passes over
  its entry.
\<close>

theorem excluded_files_never_fetched_witness:
  "get_contents 2 sample_host ''o'' ''r'' [] [] =
     Some (Inr [File ''a.py'' ''x=1'', Dir ''c'' [File ''c/d.py'' ''y=2'']],
           [\<lparr>item_type = ''file'', item_path = ''a.py'', item_download_url = ''raw/a.py''\<rparr>,
            \<lparr>item_type = ''file'', item_path = ''c/d.py'', item_download_url = ''raw/c/d.py''\<rparr>])
   \<and> \<not> endswith ''a.py'' ''.png'' \<and> \<not> endswith ''c/d.py'' ''.png''
   \<and> get_items 2 sample_host ''o'' ''r''
         [\<lparr>item_type = ''file'', item_path = ''b.png'', item_download_url = ''raw/b.png''\<rparr>] [] []
       = Some (Inr [], [])"
proof -
  have mem: "''.png'' \<in> set excluded_extensions"
    by (simp add: excluded_extensions_def)
  note run = excluded_files_never_fetched [OF sample_fetch mem]
  from run have "\<not> endswith ''a.py'' ''.png''" and "\<not> endswith ''c/d.py'' ''.png''"
    by simp_all
  moreover have "item_type \<lparr>item_type = ''file'', item_path = ''b.png'', item_download_url = ''raw/b.png''\<rparr> = ''file''
      \<and> endswith (item_path \<lparr>item_type = ''file'', item_path = ''b.png'', item_download_url = ''raw/b.png''\<rparr>) ''.png''"
    by (simp add: endswith_def)
  with run have "get_items 2 sample_host ''o'' ''r''
         [\<lparr>item_type = ''file'', item_path = ''b.png'', item_download_url = ''raw/b.png''\<rparr>] [] []
       = get_items 2 sample_host ''o'' ''r'' [] [] []"
    by blast
  then have "get_items 2 sample_host ''o'' ''r''
         [\<lparr>item_type = ''file'', item_path = ''b.png'', item_download_url = ''raw/b.png''\<rparr>] [] []
       = Some (Inr [], [])"
    by (simp only: get_items.simps)
  ultimately show ?thesis using sample_fetch by blast
qed

end
